theory Spec2Isabelle
  imports Complex_Main "HOL-Library.Word"
begin

section \<open>JavaScript strings\<close>

text \<open>
  A JavaScript string is a sequence of UTF-16 code units. \<open>utf16\<close> writes an ASCII
  literal as such a sequence.
\<close>

type_synonym jschar = "16 word"
type_synonym jsstring = "jschar list"

definition utf16 :: "string \<Rightarrow> jsstring" where
  "utf16 s = map of_char s"

text \<open>
  The WhiteSpace and LineTerminator code points of ECMAScript. \<open>String.prototype.trim\<close>
  strips exactly these, and the regular expression class \<open>\s\<close> matches exactly these.
\<close>

definition isWhiteSpace :: "jschar \<Rightarrow> bool" where
  "isWhiteSpace c \<longleftrightarrow>
     c = 0x0009 \<or> c = 0x000A \<or> c = 0x000B \<or> c = 0x000C \<or> c = 0x000D \<or> c = 0x0020 \<or>
     c = 0x00A0 \<or> c = 0x1680 \<or> (0x2000 \<le> c \<and> c \<le> 0x200A) \<or>
     c = 0x2028 \<or> c = 0x2029 \<or> c = 0x202F \<or> c = 0x205F \<or> c = 0x3000 \<or> c = 0xFEFF"

text \<open>\<open>s.trim()\<close>: white space is removed from both ends.\<close>

definition trim :: "jsstring \<Rightarrow> jsstring" where
  "trim s = rev (dropWhile isWhiteSpace (rev (dropWhile isWhiteSpace s)))"

text \<open>
  \<open>s.split(/\s+/)\<close>. The pieces between the maximal runs of white space, in order; a
  run at the very start or the very end of \<open>s\<close> leaves an empty piece there, and the
  empty string splits into one empty piece. \<open>cur\<close> holds the piece being read, reversed.
\<close>

function split_ws :: "jsstring \<Rightarrow> jsstring \<Rightarrow> jsstring list" where
  "split_ws cur [] = [rev cur]"
| "split_ws cur (c # cs) =
     (if isWhiteSpace c then rev cur # split_ws [] (dropWhile isWhiteSpace cs)
      else split_ws (c # cur) cs)"
  by pat_completeness auto
termination
  by (relation "measure (\<lambda>(cur, s). length s)") (auto simp: length_dropWhile_le less_Suc_eq_le)

text \<open>
  \<open>const count = s => s.trim().split(/\s+/).filter(Boolean).length\<close>: an empty string
  is the only falsy string, so \<open>filter(Boolean)\<close> drops the empty pieces.
\<close>

definition count :: "jsstring \<Rightarrow> nat" where
  "count s = length (filter (\<lambda>w. w \<noteq> []) (split_ws [] (trim s)))"

text \<open>\<open>/[.!?]$/.test(s)\<close>: without the \<open>m\<close> flag, \<open>$\<close> is the end of the input.\<close>

definition ends_with_punctuation :: "jsstring \<Rightarrow> bool" where
  "ends_with_punctuation s \<longleftrightarrow>
     s \<noteq> [] \<and> (last s = 0x002E \<or> last s = 0x0021 \<or> last s = 0x003F)"


section \<open>Numbers\<close>

text \<open>
  A JavaScript number: NaN, an infinity (\<open>Inf True\<close> is the positive one) or a finite
  value. Finite arithmetic is taken over the reals: rounding and overflow are left out,
  and the two zeros are one value.
\<close>

datatype jsnum = NaN | Inf bool | Fin real

fun js_add :: "jsnum \<Rightarrow> jsnum \<Rightarrow> jsnum" where
  "js_add (Fin a) (Fin b) = Fin (a + b)"
| "js_add (Fin a) (Inf s) = Inf s"
| "js_add (Inf s) (Fin b) = Inf s"
| "js_add (Inf s) (Inf s') = (if s = s' then Inf s else NaN)"
| "js_add NaN y = NaN"
| "js_add x NaN = NaN"

fun js_neg :: "jsnum \<Rightarrow> jsnum" where
  "js_neg (Fin a) = Fin (- a)"
| "js_neg (Inf s) = Inf (\<not> s)"
| "js_neg NaN = NaN"

definition js_sub :: "jsnum \<Rightarrow> jsnum \<Rightarrow> jsnum" where
  "js_sub x y = js_add x (js_neg y)"

fun js_mul :: "jsnum \<Rightarrow> jsnum \<Rightarrow> jsnum" where
  "js_mul (Fin a) (Fin b) = Fin (a * b)"
| "js_mul (Fin a) (Inf s) = (if a = 0 then NaN else Inf (s = (0 < a)))"
| "js_mul (Inf s) (Fin b) = (if b = 0 then NaN else Inf (s = (0 < b)))"
| "js_mul (Inf s) (Inf s') = Inf (s = s')"
| "js_mul NaN y = NaN"
| "js_mul x NaN = NaN"

text \<open>Division by a positive count \<open>n\<close>.\<close>

fun js_div_count :: "jsnum \<Rightarrow> nat \<Rightarrow> jsnum" where
  "js_div_count (Fin a) n = Fin (a / real n)"
| "js_div_count (Inf s) n = Inf s"
| "js_div_count NaN n = NaN"

definition js_sum :: "jsnum list \<Rightarrow> jsnum" where
  "js_sum xs = foldl js_add (Fin 0) xs"

text \<open>\<open>xs[i]\<close> on an array: \<open>undefined\<close> (here \<open>None\<close>) out of range.\<close>

definition lookup :: "'a list \<Rightarrow> nat \<Rightarrow> 'a option" where
  "lookup xs i = (if i < length xs then Some (xs ! i) else None)"

text \<open>\<open>x || 0\<close> on a number or \<open>undefined\<close>: \<open>undefined\<close>, NaN and zero are falsy.\<close>

fun or_zero :: "jsnum option \<Rightarrow> jsnum" where
  "or_zero None = Fin 0"
| "or_zero (Some NaN) = Fin 0"
| "or_zero (Some (Inf s)) = Inf s"
| "or_zero (Some (Fin a)) = Fin a"

text \<open>\<open>x || ''\<close> on a string or \<open>undefined\<close>: the empty string is the only falsy string.\<close>

fun or_empty :: "jsstring option \<Rightarrow> jsstring" where
  "or_empty None = []"
| "or_empty (Some s) = s"

section \<open>Exceptions and the files under \<open>data/\<close>\<close>

datatype exn = IOError | SyntaxError | TypeError | EmbedderError | PCAError

text \<open>
  A file is absent, present but unreadable, or holds a content. \<open>locked\<close> lists the
  paths on which \<open>fs.writeFileSync\<close> and \<open>fs.unlinkSync\<close> throw. A write that
  throws leaves the file as it was.
\<close>

datatype 'a node = Absent | Unreadable | Holds 'a

text \<open>
  What \<open>JSON.parse\<close> returns on the text of a \<open>.json\<close> file: an array of records, or
  a JSON value that is not an array. Arrays whose elements are not records of the
  expected shape are outside the model. The text itself is kept as what it parses to,
  or \<open>Malformed\<close> when \<open>JSON.parse\<close> throws on it; numbers are written and read back
  unchanged.
\<close>

datatype 'r parsed = NonArray | Array "'r list"
datatype 'r json_text = Malformed | Encoding "'r parsed"

record stamped =
  step :: nat
  t :: string

record VectorRecord = stamped +
  vec :: "jsnum list"

record ProjectionRecord = stamped +
  xyz :: "jsnum list"

datatype path = Sentence_txt | Vectors_json | Vectors3d_json

record disk =
  DATA_FILE :: "jsstring node"
  VEC_FILE :: "VectorRecord json_text node"
  PROJ_FILE :: "ProjectionRecord json_text node"
  locked :: "path set"

definition readFileSync :: "'a node \<Rightarrow> exn + 'a" where
  "readFileSync f = (case f of Holds c \<Rightarrow> Inr c | _ \<Rightarrow> Inl IOError)"

fun existsSync :: "path \<Rightarrow> disk \<Rightarrow> bool" where
  "existsSync Sentence_txt d = (DATA_FILE d \<noteq> Absent)"
| "existsSync Vectors_json d = (VEC_FILE d \<noteq> Absent)"
| "existsSync Vectors3d_json d = (PROJ_FILE d \<noteq> Absent)"

fun remove_file :: "path \<Rightarrow> disk \<Rightarrow> disk" where
  "remove_file Sentence_txt d = d\<lparr>DATA_FILE := Absent\<rparr>"
| "remove_file Vectors_json d = d\<lparr>VEC_FILE := Absent\<rparr>"
| "remove_file Vectors3d_json d = d\<lparr>PROJ_FILE := Absent\<rparr>"

definition unlinkSync :: "path \<Rightarrow> disk \<Rightarrow> exn + disk" where
  "unlinkSync p d =
     (if \<not> existsSync p d \<or> p \<in> locked d then Inl IOError else Inr (remove_file p d))"

definition JSON_parse :: "'r json_text \<Rightarrow> exn + 'r parsed" where
  "JSON_parse txt = (case txt of Malformed \<Rightarrow> Inl SyntaxError | Encoding v \<Rightarrow> Inr v)"

definition JSON_stringify :: "'r parsed \<Rightarrow> 'r json_text" where
  "JSON_stringify v = Encoding v"

section \<open>Requests and responses\<close>

text \<open>
  The body of a request after the middleware: a string for \<open>text/plain\<close>, otherwise an
  object whose \<open>sentence\<close> field is absent (\<open>None\<close>) or a string. The configuration is
  the environment variable \<open>WEBHOOK_SECRET\<close>, \<open>None\<close> when unset.
\<close>

datatype req_body = Text jsstring | Json "jsstring option"

record request =
  X_Secret :: "jsstring option"
  body :: req_body

record config =
  WEBHOOK_SECRET :: "jsstring option"

text \<open>
  The three 400 answers of the update: \<open>missing sentence\<close>,
  \<open>must append exactly one word\<close>, \<open>do not end the sentence with punctuation\<close>.
\<close>

datatype rejection = MissingSentence | MustAppendOneWord | EndsWithPunctuation

text \<open>
  \<open>Unauthorized\<close> is the 401, \<open>BadRequest\<close> a 400, \<open>ServerError\<close> the 500 sent when
  an exception leaves the handler or reaches the handler's own \<open>catch\<close>, the others are
  200: a plain text, the points as JSON, and the reset's \<open>All data cleared\<close>.
\<close>

datatype response =
    Unauthorized
  | BadRequest rejection
  | ServerError
  | SendText jsstring
  | SendJson "ProjectionRecord parsed"
  | Cleared

definition SECRET :: "config \<Rightarrow> jsstring" where
  "SECRET cfg = or_empty (WEBHOOK_SECRET cfg)"

section \<open>The helpers shared by both servers\<close>

definition readSentence :: "disk \<Rightarrow> jsstring" where
  "readSentence d = (case readFileSync (DATA_FILE d) of Inl e \<Rightarrow> [] | Inr s \<Rightarrow> trim s)"

definition writeSentence :: "jsstring \<Rightarrow> disk \<Rightarrow> exn + disk" where
  "writeSentence txt d =
     (if Sentence_txt \<in> locked d then Inl IOError else Inr (d\<lparr>DATA_FILE := Holds txt\<rparr>))"

text \<open>
  \<open>const body = typeof req.body === 'string' ? { sentence: req.body } : (req.body || {});\<close>
  \<open>const incoming = (body.sentence || '').toString().trim();\<close>
\<close>

definition incoming_of :: "req_body \<Rightarrow> jsstring" where
  "incoming_of b = trim (or_empty (case b of Text s \<Rightarrow> Some s | Json f \<Rightarrow> f))"

definition get_sentence :: "disk \<Rightarrow> response" where
  "get_sentence d = SendText (readSentence d)"

section \<open>\<open>src/server.js\<close>: the validating update\<close>

definition webhook_update :: "config \<Rightarrow> request \<Rightarrow> disk \<Rightarrow> response \<times> disk" where
  "webhook_update cfg req d =
     (let token = or_empty (X_Secret req) in
      if SECRET cfg = [] \<or> token \<noteq> SECRET cfg then (Unauthorized, d)
      else
        let incoming = incoming_of (body req) in
        if incoming = [] then (BadRequest MissingSentence, d)
        else
          let prev = readSentence d in
          if prev \<noteq> [] \<and> count incoming \<noteq> count prev + 1
          then (BadRequest MustAppendOneWord, d)
          else if ends_with_punctuation incoming then (BadRequest EndsWithPunctuation, d)
          else (case writeSentence incoming d of
                  Inl e \<Rightarrow> (ServerError, d)
                | Inr d' \<Rightarrow> (SendText incoming, d')))"

section \<open>\<open>src/unnamed/part_000\<close>: the server with embedding and projection\<close>

subsection \<open>The PCA library\<close>

text \<open>
  The package \<open>ml-pca\<close> behind \<open>new PCA(mat, {center: true, scale: false})\<close>,
  \<open>getEigenvalues\<close> and \<open>predict\<close> is not part of the repository. The
  decomposition is a parameter of the model (\<open>new_PCA\<close> below, which may throw): it
  yields the eigenvalues and one loading vector per component.
\<close>

record pca =
  eigenvalues :: "jsnum list"
  loadings :: "jsnum list list"

text \<open>
  Modelled from the spec: \<open>pca.predict(mat, {nComponents})\<close> of the absent package,
  with its helpers \<open>column_means\<close>, \<open>centre\<close> and \<open>dot\<close>. Following section 4.4
  (mean-centering enabled, no scaling, projection onto the top components), every row has
  the column means of the matrix subtracted and is then projected onto the first
  \<open>nComponents\<close> loading vectors.
\<close>

definition column_means :: "jsnum list list \<Rightarrow> jsnum list" where
  "column_means mat = map (\<lambda>col. js_div_count (js_sum col) (length col)) (transpose mat)"

definition centre :: "jsnum list \<Rightarrow> jsnum list \<Rightarrow> jsnum list" where
  "centre means row = map (\<lambda>(x, m). js_sub x m) (zip row means)"

definition dot :: "jsnum list \<Rightarrow> jsnum list \<Rightarrow> jsnum" where
  "dot u v = js_sum (map (\<lambda>(x, y). js_mul x y) (zip u v))"

definition predict :: "pca \<Rightarrow> jsnum list list \<Rightarrow> nat \<Rightarrow> jsnum list list" where
  "predict p mat nComponents =
     map (\<lambda>row. map (dot (centre (column_means mat) row)) (take nComponents (loadings p))) mat"

subsection \<open>What the process is given\<close>

text \<open>
  The embedding pipeline (\<open>await embed(sentence, ...)\<close> followed by
  \<open>Array.from(feats.data)\<close>), the clock behind \<open>new Date().toISOString()\<close> and the
  PCA constructor. The embedder and the constructor may throw.
\<close>

record runtime =
  embed :: "jsstring \<Rightarrow> exn + jsnum list"
  now :: string
  new_PCA :: "jsnum list list \<Rightarrow> exn + pca"

subsection \<open>\<open>loadJson\<close>, \<open>saveJson\<close>, \<open>projectTo3D\<close>\<close>

definition loadJson :: "'r json_text node \<Rightarrow> 'r parsed \<Rightarrow> 'r parsed" where
  "loadJson f fallback =
     (case readFileSync f of
        Inl e \<Rightarrow> fallback
      | Inr txt \<Rightarrow> (case JSON_parse txt of Inl e \<Rightarrow> fallback | Inr v \<Rightarrow> v))"

text \<open>\<open>saveJson(VEC_FILE, data)\<close> and \<open>saveJson(PROJ_FILE, data)\<close>.\<close>

definition saveJson_VEC_FILE :: "VectorRecord parsed \<Rightarrow> disk \<Rightarrow> exn + disk" where
  "saveJson_VEC_FILE data d =
     (if Vectors_json \<in> locked d then Inl IOError
      else Inr (d\<lparr>VEC_FILE := Holds (JSON_stringify data)\<rparr>))"

definition saveJson_PROJ_FILE :: "ProjectionRecord parsed \<Rightarrow> disk \<Rightarrow> exn + disk" where
  "saveJson_PROJ_FILE data d =
     (if Vectors3d_json \<in> locked d then Inl IOError
      else Inr (d\<lparr>PROJ_FILE := Holds (JSON_stringify data)\<rparr>))"

text \<open>
  \<open>xs.map((x, i) => f(x, i))\<close> with a callback that may throw; \<open>i\<close> is the index of
  the head of the list.
\<close>

fun map_indexed :: "(nat \<Rightarrow> 'a \<Rightarrow> exn + 'b) \<Rightarrow> nat \<Rightarrow> 'a list \<Rightarrow> exn + 'b list" where
  "map_indexed f i [] = Inr []"
| "map_indexed f i (x # xs) =
     (case f i x of
        Inl e \<Rightarrow> Inl e
      | Inr y \<Rightarrow> (case map_indexed f (Suc i) xs of Inl e \<Rightarrow> Inl e | Inr ys \<Rightarrow> Inr (y # ys)))"

text \<open>
  The callback of \<open>projectTo3D\<close>: \<open>proj[i][0]\<close> throws a TypeError when \<open>proj[i]\<close>
  is \<open>undefined\<close>.
\<close>

definition project_row :: "jsnum list list \<Rightarrow> nat \<Rightarrow> VectorRecord \<Rightarrow> exn + ProjectionRecord" where
  "project_row proj i row =
     (case lookup proj i of
        None \<Rightarrow> Inl TypeError
      | Some p \<Rightarrow>
          Inr \<lparr>step = step row, t = t row,
               xyz = [or_zero (lookup p 0), or_zero (lookup p 1), or_zero (lookup p 2)]\<rparr>)"

definition projectTo3D :: "runtime \<Rightarrow> VectorRecord list \<Rightarrow> exn + ProjectionRecord list" where
  "projectTo3D rt vectors =
     (if vectors = [] then Inr []
      else
        let mat = map vec vectors in
        case new_PCA rt mat of
          Inl e \<Rightarrow> Inl e
        | Inr p \<Rightarrow>
            let k = min 3 (length (eigenvalues p));
                proj = predict p mat k
            in map_indexed (project_row proj) 0 vectors)"

subsection \<open>The update and its background task\<close>

text \<open>
  The body of the \<open>async\<close> function started after the response is sent, with its
  \<open>try\<close>/\<open>catch\<close>: the first component is what \<open>console.error\<close> logs, \<open>None\<close>
  when nothing was thrown; the second is the disk the task leaves. On a value that is
  not an array, \<open>list[list.length - 1]?.step\<close> or \<open>list.push\<close> throws a TypeError.
  In \<open>(list[list.length - 1]?.step || 0) + 1\<close> the left operand is \<open>undefined\<close> on
  the empty array, and \<open>|| 0\<close> leaves every other step as it is (a zero stays zero).
  Steps are natural numbers: in a history the server wrote itself a step is at most the
  length of the array, which is below \<open>2^32\<close>, where adding one is exact.
\<close>

definition background_task :: "runtime \<Rightarrow> disk \<Rightarrow> exn option \<times> disk" where
  "background_task rt d =
     (let sentence = readSentence d in
      case embed rt sentence of
        Inl e \<Rightarrow> (Some e, d)
      | Inr v \<Rightarrow>
          (case loadJson (VEC_FILE d) (Array []) of
             NonArray \<Rightarrow> (Some TypeError, d)
           | Array list \<Rightarrow>
               let step' = (if list = [] then 0 else step (last list)) + 1;
                   row = \<lparr>step = step', t = now rt, vec = v\<rparr>;
                   list' = list @ [row]
               in
               (case saveJson_VEC_FILE (Array list') d of
                  Inl e \<Rightarrow> (Some e, d)
                | Inr d1 \<Rightarrow>
                    (case projectTo3D rt list' of
                       Inl e \<Rightarrow> (Some e, d1)
                     | Inr proj \<Rightarrow>
                         (case saveJson_PROJ_FILE (Array proj) d1 of
                            Inl e \<Rightarrow> (Some e, d1)
                          | Inr d2 \<Rightarrow> (None, d2))))))"

text \<open>
  The handler: the response is fixed before the background task starts; the disk
  returned is the one the task leaves, the task running to its end before the next
  request.
\<close>

definition webhook_update_part_000 ::
  "config \<Rightarrow> runtime \<Rightarrow> request \<Rightarrow> disk \<Rightarrow> response \<times> disk" where
  "webhook_update_part_000 cfg rt req d =
     (let token = or_empty (X_Secret req) in
      if SECRET cfg = [] \<or> token \<noteq> SECRET cfg then (Unauthorized, d)
      else
        let incoming = incoming_of (body req) in
        if incoming = [] then (BadRequest MissingSentence, d)
        else (case writeSentence incoming d of
                Inl e \<Rightarrow> (ServerError, d)
              | Inr d' \<Rightarrow> (SendText incoming, snd (background_task rt d'))))"

subsection \<open>\<open>GET /vectors3d\<close> and \<open>POST /reset\<close>\<close>

definition get_vectors3d :: "disk \<Rightarrow> response" where
  "get_vectors3d d = SendJson (loadJson (PROJ_FILE d) (Array []))"

definition unlink_if_exists :: "path \<Rightarrow> disk \<Rightarrow> exn + disk" where
  "unlink_if_exists p d = (if existsSync p d then unlinkSync p d else Inr d)"

definition reset :: "config \<Rightarrow> request \<Rightarrow> disk \<Rightarrow> response \<times> disk" where
  "reset cfg req d =
     (let token = or_empty (X_Secret req) in
      if SECRET cfg = [] \<or> token \<noteq> SECRET cfg then (Unauthorized, d)
      else
        case unlink_if_exists Sentence_txt d of
          Inl e \<Rightarrow> (ServerError, d)
        | Inr d1 \<Rightarrow>
            (case unlink_if_exists Vectors_json d1 of
               Inl e \<Rightarrow> (ServerError, d1)
             | Inr d2 \<Rightarrow>
                 (case unlink_if_exists Vectors3d_json d2 of
                    Inl e \<Rightarrow> (ServerError, d2)
                  | Inr d3 \<Rightarrow> (Cleared, d3))))"

subsection \<open>Serialized execution\<close>

text \<open>
  The requests that change the disk, served one after the other: each background task
  has finished before the next request is read. Every update comes with the runtime it
  meets (the embedder's answer, the clock, the PCA constructor's answer).
\<close>

datatype event = Update runtime request | Reset request

fun serve :: "config \<Rightarrow> event \<Rightarrow> disk \<Rightarrow> disk" where
  "serve cfg (Update rt req) d = snd (webhook_update_part_000 cfg rt req d)"
| "serve cfg (Reset req) d = snd (reset cfg req d)"

fun serve_all :: "config \<Rightarrow> event list \<Rightarrow> disk \<Rightarrow> disk" where
  "serve_all cfg [] d = d"
| "serve_all cfg (ev # evs) d = serve_all cfg evs (serve cfg ev d)"

section \<open>Notions used in the statements\<close>

text \<open>The value a centred coordinate of a lone record can take: zero, or NaN.\<close>

definition zero_or_NaN :: "jsnum \<Rightarrow> bool" where
  "zero_or_NaN x \<longleftrightarrow> x = Fin 0 \<or> x = NaN"

text \<open>The steps of a history are 1, 2, 3, ... in this order.\<close>

definition contiguous :: "VectorRecord list \<Rightarrow> bool" where
  "contiguous list \<longleftrightarrow> map step list = [1..<Suc (length list)]"

text \<open>The vector history as the server loads it.\<close>

definition history :: "disk \<Rightarrow> VectorRecord parsed" where
  "history d = loadJson (VEC_FILE d) (Array [])"

section \<open>Trimming and counting\<close>

lemma dropWhile_trimmed: "dropWhile isWhiteSpace (trim s) = trim s"
proof (cases "trim s")
  case Nil then show ?thesis by simp
next
  case (Cons c cs)
  let ?u = "dropWhile isWhiteSpace s"
  let ?w = "dropWhile isWhiteSpace (rev ?u)"
  have w: "?w \<noteq> []" using Cons by (auto simp: trim_def)
  have u: "?u \<noteq> []"
  proof
    assume "?u = []"
    then have "?w = []" by (metis dropWhile.simps(1) rev.simps(1))
    with w show False by contradiction
  qed
  have "c = hd (rev ?w)" using Cons by (simp add: trim_def)
  also have "\<dots> = last ?w" using w by (simp add: hd_rev)
  also have "\<dots> = last (rev ?u)" using w
    by (metis append_Nil2 last_appendR takeWhile_dropWhile_id)
  also have "\<dots> = hd ?u" using u by (simp add: last_rev)
  finally have "\<not> isWhiteSpace c" using u hd_dropWhile by metis
  then show ?thesis using Cons by simp
qed

lemma trim_trim: "trim (trim s) = trim s"
proof -
  have "dropWhile isWhiteSpace (rev (trim s)) = rev (trim s)"
    by (simp add: trim_def dropWhile_idem)
  then show ?thesis
    unfolding trim_def[of "trim s"] by (simp add: dropWhile_trimmed)
qed

lemma count_trim: "count (trim s) = count s"
  by (simp add: count_def trim_trim)

lemma incoming_of_Text: "incoming_of (Text c) = trim c"
  by (simp add: incoming_of_def)

lemma incoming_of_Json: "incoming_of (Json (Some c)) = trim c"
  by (simp add: incoming_of_def)

lemma trim_Nil: "trim [] = []"
  by (simp add: trim_def)

lemma readSentence_trimmed: "trim (readSentence d) = readSentence d"
  by (simp add: readSentence_def readFileSync_def trim_trim trim_Nil split: node.splits)

lemma update_accept_iff:
  assumes auth: "SECRET cfg \<noteq> []" "X_Secret req = Some (SECRET cfg)"
    and cand: "body req = Text c \<or> body req = Json (Some c)"
    and writable: "Sentence_txt \<notin> locked d"
    and nonempty: "readSentence d \<noteq> []"
  shows "fst (webhook_update cfg req d) = SendText (trim c) \<longleftrightarrow>
           trim c \<noteq> [] \<and> count c = count (readSentence d) + 1 \<and> \<not> ends_with_punctuation (trim c)"
proof -
  have inc: "incoming_of (body req) = trim c"
    using cand by (auto simp: incoming_of_def)
  show ?thesis
    using auth writable nonempty
    by (auto simp: webhook_update_def inc count_trim writeSentence_def Let_def)
qed

section \<open>The projection\<close>

lemma map_indexed_project_row_shape:
  "map_indexed (project_row proj) i vs = Inr out \<Longrightarrow>
     length out = length vs \<and> map step out = map step vs \<and> map t out = map t vs"
proof (induction vs arbitrary: i out)
  case Nil
  then show ?case by simp
next
  case (Cons v vs)
  then show ?case
    by (auto simp: project_row_def split: sum.splits option.splits)
qed

lemma map_indexed_project_row_total:
  "i + length vs \<le> length proj \<Longrightarrow> \<exists>out. map_indexed (project_row proj) i vs = Inr out"
proof (induction vs arbitrary: i)
  case Nil
  then show ?case by simp
next
  case (Cons v vs)
  from Cons.prems have "i < length proj" and "Suc i + length vs \<le> length proj" by simp_all
  with Cons.IH [of "Suc i"] show ?case
    by (auto simp: project_row_def lookup_def)
qed

lemma length_predict: "length (predict p mat k) = length mat"
  by (simp add: predict_def)

lemma projectTo3D_returns:
  assumes "vs = [] \<or> new_PCA rt (map vec vs) = Inr p"
  shows "\<exists>out. projectTo3D rt vs = Inr out"
proof (cases "vs = []")
  case True
  then show ?thesis by (simp add: projectTo3D_def)
next
  case False
  with assms have fit: "new_PCA rt (map vec vs) = Inr p" by simp
  have "0 + length vs \<le> length (predict p (map vec vs) (min 3 (length (eigenvalues p))))"
    by (simp add: length_predict)
  from map_indexed_project_row_total [OF this] show ?thesis
    using False fit by (simp add: projectTo3D_def Let_def)
qed

lemma projectTo3D_shape:
  assumes "projectTo3D rt vs = Inr out"
  shows "length out = length vs \<and> map step out = map step vs \<and> map t out = map t vs"
proof (cases "vs = []")
  case True
  with assms show ?thesis by (simp add: projectTo3D_def)
next
  case False
  with assms obtain proj where "map_indexed (project_row proj) 0 vs = Inr out"
    by (auto simp: projectTo3D_def Let_def split: sum.splits)
  then show ?thesis by (rule map_indexed_project_row_shape)
qed

lemma js_sub_self: "zero_or_NaN (js_sub x x)"
  by (cases x) (simp_all add: js_sub_def zero_or_NaN_def)

lemma js_mul_zero_or_NaN: "zero_or_NaN x \<Longrightarrow> zero_or_NaN (js_mul x y)"
  by (cases y) (auto simp: zero_or_NaN_def)

lemma js_add_zero_or_NaN: "zero_or_NaN x \<Longrightarrow> zero_or_NaN y \<Longrightarrow> zero_or_NaN (js_add x y)"
  by (auto simp: zero_or_NaN_def)

lemma foldl_js_add_zero_or_NaN:
  "zero_or_NaN a \<Longrightarrow> \<forall>x\<in>set xs. zero_or_NaN x \<Longrightarrow> zero_or_NaN (foldl js_add a xs)"
  by (induction xs arbitrary: a) (simp_all add: js_add_zero_or_NaN)

lemma dot_zero_or_NaN:
  assumes "\<forall>x\<in>set u. zero_or_NaN x"
  shows "zero_or_NaN (dot u w)"
proof -
  have "\<forall>z\<in>set (map (\<lambda>(x, y). js_mul x y) (zip u w)). zero_or_NaN z"
    using assms by (auto dest: set_zip_leftD intro: js_mul_zero_or_NaN)
  then show ?thesis
    unfolding dot_def js_sum_def
    by (intro foldl_js_add_zero_or_NaN) (simp_all add: zero_or_NaN_def)
qed

lemma transpose_single: "transpose [xs] = map (\<lambda>x. [x]) xs"
  by (induction xs) simp_all

lemma js_add_zero_left: "js_add (Fin 0) x = x"
  by (cases x) simp_all

lemma js_div_count_one: "js_div_count x (Suc 0) = x"
  by (cases x) simp_all

lemma column_means_single: "column_means [v] = v"
  by (simp add: column_means_def transpose_single js_sum_def js_add_zero_left js_div_count_one
      comp_def)

lemma centre_self: "\<forall>x\<in>set (centre v v). zero_or_NaN x"
  by (auto simp: centre_def zip_same js_sub_self)

lemma or_zero_lookup_zero_or_NaN:
  assumes "\<forall>x\<in>set r. zero_or_NaN x"
  shows "or_zero (lookup r j) = Fin 0"
proof (cases "j < length r")
  case True
  with assms have "zero_or_NaN (r ! j)" by simp
  then show ?thesis using True by (auto simp: lookup_def zero_or_NaN_def)
next
  case False
  then show ?thesis by (simp add: lookup_def)
qed

lemma projectTo3D_single:
  assumes "new_PCA rt [vec r] = Inr p"
  shows "projectTo3D rt [r] = Inr [\<lparr>step = step r, t = t r, xyz = [Fin 0, Fin 0, Fin 0]\<rparr>]"
proof -
  let ?k = "min 3 (length (eigenvalues p))"
  let ?row = "map (dot (centre (vec r) (vec r))) (take ?k (loadings p))"
  have pr: "predict p [vec r] ?k = [?row]"
    by (simp add: predict_def column_means_single)
  have z: "\<forall>x\<in>set ?row. zero_or_NaN x"
    using dot_zero_or_NaN [OF centre_self] by simp
  show ?thesis
    using assms
    by (simp add: projectTo3D_def Let_def pr project_row_def lookup_def [of "[?row]"]
        or_zero_lookup_zero_or_NaN [OF z])
qed

lemma or_zero_not_NaN: "or_zero x \<noteq> NaN"
  by (cases x rule: or_zero.cases) simp_all

lemma map_indexed_project_row_xyz:
  "map_indexed (project_row proj) i vs = Inr out \<Longrightarrow> \<forall>r\<in>set proj. length r \<le> k \<Longrightarrow>
     \<forall>q\<in>set out. length (xyz q) = 3 \<and> (\<forall>j<3. xyz q ! j \<noteq> NaN) \<and>
        (\<forall>j. k \<le> j \<and> j < 3 \<longrightarrow> xyz q ! j = Fin 0)"
proof (induction vs arbitrary: i out)
  case Nil
  then show ?case by simp
next
  case (Cons v vs)
  from Cons.prems(1) obtain y ys where y: "project_row proj i v = Inr y"
    and ys: "map_indexed (project_row proj) (Suc i) vs = Inr ys" and out: "out = y # ys"
    by (auto split: sum.splits)
  from y obtain r where r: "lookup proj i = Some r"
    and xyz: "xyz y = [or_zero (lookup r 0), or_zero (lookup r 1), or_zero (lookup r 2)]"
    by (auto simp: project_row_def split: option.splits)
  from r have "r \<in> set proj" by (auto simp: lookup_def split: if_splits)
  with Cons.prems(2) have len: "length r \<le> k" by simp
  have "\<forall>j<3. xyz y ! j \<noteq> NaN"
    by (simp add: xyz nth_Cons' or_zero_not_NaN)
  moreover have "\<forall>j. k \<le> j \<and> j < 3 \<longrightarrow> xyz y ! j = Fin 0"
    using len by (auto simp: xyz nth_Cons' lookup_def)
  moreover have "length (xyz y) = 3" by (simp add: xyz)
  ultimately show ?case
    using Cons.IH [OF ys Cons.prems(2)] out by simp
qed

lemma predict_row_length: "\<forall>r\<in>set (predict p mat k). length r \<le> k"
  by (auto simp: predict_def)

section \<open>The vector history under serialized execution\<close>

lemma contiguous_Nil: "contiguous []"
  by (simp add: contiguous_def)

lemma contiguous_last: "contiguous list \<Longrightarrow> list \<noteq> [] \<Longrightarrow> step (last list) = length list"
proof -
  assume c: "contiguous list" and ne: "list \<noteq> []"
  have "step (last list) = last (map step list)" using ne by (simp add: last_map)
  also have "\<dots> = last [1..<Suc (length list)]" using c by (simp add: contiguous_def)
  also have "\<dots> = length list"
  proof -
    from ne have "Suc 0 \<le> length list" by (cases list) simp_all
    then show ?thesis by simp
  qed
  finally show ?thesis .
qed

lemma contiguous_append:
  assumes "contiguous list"
  shows "contiguous (list @ [\<lparr>step = (if list = [] then 0 else step (last list)) + 1, t = ts, vec = v\<rparr>])"
proof (cases "list = []")
  case True
  then show ?thesis by (simp add: contiguous_def)
next
  case False
  with assms contiguous_last [OF assms False] show ?thesis
    by (simp add: contiguous_def)
qed

lemma contiguous_nth: "contiguous list \<Longrightarrow> k < length list \<Longrightarrow> step (list ! k) = k + 1"
proof -
  assume c: "contiguous list" and k: "k < length list"
  have "step (list ! k) = map step list ! k" using k by simp
  also have "\<dots> = [1..<Suc (length list)] ! k" using c by (simp add: contiguous_def)
  also have "\<dots> = k + 1" using k by (simp add: nth_upt del: upt_Suc)
  finally show ?thesis .
qed

lemma background_task_history:
  assumes "history d = Array list"
  shows "history (snd (background_task rt d)) = Array list \<or>
         history (snd (background_task rt d)) =
           Array (list @ [\<lparr>step = (if list = [] then 0 else step (last list)) + 1, t = now rt,
                            vec = (case embed rt (readSentence d) of Inr v \<Rightarrow> v | Inl e \<Rightarrow> [])\<rparr>])"
  using assms
  by (auto simp: background_task_def history_def Let_def saveJson_VEC_FILE_def
      saveJson_PROJ_FILE_def loadJson_def readFileSync_def JSON_parse_def JSON_stringify_def
      split: sum.splits parsed.splits if_splits)


lemma history_reset:
  assumes "history d = Array list"
  shows "history (snd (reset cfg req d)) = Array list \<or> history (snd (reset cfg req d)) = Array []"
  using assms
  by (auto simp: reset_def history_def Let_def unlink_if_exists_def unlinkSync_def
      loadJson_def readFileSync_def
      split: sum.splits if_splits)

lemma history_writeSentence:
  "writeSentence txt d = Inr d' \<Longrightarrow> history d' = history d"
  by (auto simp: writeSentence_def history_def split: if_splits)

lemma serve_contiguous:
  assumes "history d = Array list" "contiguous list"
  shows "\<exists>list'. history (serve cfg ev d) = Array list' \<and> contiguous list'"
proof (cases ev)
  case (Update rt req)
  show ?thesis
  proof (cases "\<exists>d'. writeSentence (incoming_of (body req)) d = Inr d' \<and>
      serve cfg ev d = snd (background_task rt d')")
    case True
    then obtain d' where w: "writeSentence (incoming_of (body req)) d = Inr d'"
      and s: "serve cfg ev d = snd (background_task rt d')" by blast
    from history_writeSentence [OF w] assms have "history d' = Array list" by simp
    from background_task_history [OF this, of rt] show ?thesis
      unfolding s using assms(2) contiguous_append [OF assms(2)] by blast
  next
    case False
    then have "serve cfg ev d = d"
      using Update by (auto simp: webhook_update_part_000_def Let_def split: sum.splits)
    with assms show ?thesis by simp
  qed
next
  case (Reset req)
  with history_reset [OF assms(1), of cfg req] assms(2) show ?thesis
    by (auto simp: contiguous_Nil)
qed

lemma serve_all_contiguous:
  "history d = Array list \<Longrightarrow> contiguous list \<Longrightarrow>
     \<exists>list'. history (serve_all cfg evs d) = Array list' \<and> contiguous list'"
proof (induction evs arbitrary: d list)
  case Nil
  then show ?case by simp
next
  case (Cons ev evs)
  from serve_contiguous [OF Cons.prems, of cfg ev] obtain l1
    where "history (serve cfg ev d) = Array l1" "contiguous l1" by blast
  from Cons.IH [OF this] show ?case by simp
qed

section \<open>Facts about the handlers shared by several claims\<close>

lemma background_task_DATA_FILE: "DATA_FILE (snd (background_task rt d)) = DATA_FILE d"
  by (auto simp: background_task_def Let_def saveJson_VEC_FILE_def saveJson_PROJ_FILE_def
      split: sum.splits parsed.splits if_splits)

lemma update_bootstrap:
  assumes auth: "SECRET cfg \<noteq> []" "X_Secret req = Some (SECRET cfg)"
    and cand: "body req = Text c \<or> body req = Json (Some c)"
    and writable: "Sentence_txt \<notin> locked d"
    and bootstrap: "readSentence d = []"
    and nonempty: "trim c \<noteq> []"
    and unpunctuated: "\<not> ends_with_punctuation (trim c)"
  shows "webhook_update cfg req d = (SendText (trim c), d\<lparr>DATA_FILE := Holds (trim c)\<rparr>) \<and>
         fst (webhook_update_part_000 cfg rt req d) = SendText (trim c) \<and>
         DATA_FILE (snd (webhook_update_part_000 cfg rt req d)) = Holds (trim c)"
proof -
  have inc: "incoming_of (body req) = trim c"
    using cand by (auto simp: incoming_of_def)
  have v1: "webhook_update cfg req d = (SendText (trim c), d\<lparr>DATA_FILE := Holds (trim c)\<rparr>)"
    using auth writable bootstrap nonempty unpunctuated
    by (simp add: webhook_update_def inc writeSentence_def Let_def)
  have v2: "webhook_update_part_000 cfg rt req d =
      (SendText (trim c), snd (background_task rt (d\<lparr>DATA_FILE := Holds (trim c)\<rparr>)))"
    using auth writable nonempty
    by (simp add: webhook_update_part_000_def inc writeSentence_def Let_def)
  show ?thesis
    by (simp add: v1 v2 background_task_DATA_FILE)
qed

lemma reset_Cleared:
  assumes "fst (reset cfg req d) = Cleared"
  shows "DATA_FILE (snd (reset cfg req d)) = Absent \<and> VEC_FILE (snd (reset cfg req d)) = Absent \<and>
         PROJ_FILE (snd (reset cfg req d)) = Absent \<and> locked (snd (reset cfg req d)) = locked d \<and>
         SECRET cfg \<noteq> []"
  using assms
  by (auto simp: reset_def Let_def unlink_if_exists_def unlinkSync_def
      split: sum.splits if_splits)

lemma background_task_failure:
  assumes "fst (background_task rt d) = Some e"
  shows "PROJ_FILE (snd (background_task rt d)) = PROJ_FILE d"
  using assms
  by (auto simp: background_task_def Let_def saveJson_VEC_FILE_def saveJson_PROJ_FILE_def
      split: sum.splits parsed.splits if_splits)

lemma background_task_early_failure:
  assumes "embed rt (readSentence d) = Inl e \<or> loadJson (VEC_FILE d) (Array []) = NonArray \<or>
           Vectors_json \<in> locked d"
  shows "snd (background_task rt d) = d \<and> fst (background_task rt d) \<noteq> None"
  using assms
  by (auto simp: background_task_def Let_def saveJson_VEC_FILE_def
      split: sum.splits parsed.splits)

text \<open>The definitions a concrete run is evaluated with.\<close>

lemmas eval_defs = webhook_update_part_000_def SECRET_def incoming_of_def
        trim_def utf16_def isWhiteSpace_def writeSentence_def background_task_def
        readSentence_def readFileSync_def loadJson_def JSON_parse_def JSON_stringify_def
        saveJson_VEC_FILE_def saveJson_PROJ_FILE_def projectTo3D_def predict_def
        column_means_def centre_def dot_def js_sum_def js_sub_def project_row_def lookup_def
        Let_def

section \<open>The claims\<close>

subsection \<open>C1: the acceptance rule of the update\<close>

text \<open>
  In \<open>src/server.js\<close> the three checks run in the order: empty input, word count,
  trailing punctuation. The candidate \<open>c\<close> arrives as a plain-text body or as the
  \<open>sentence\<close> field of a JSON body.
\<close>

lemma update_rejection_order:
  assumes auth: "SECRET cfg \<noteq> []" "X_Secret req = Some (SECRET cfg)"
    and cand: "body req = Text c \<or> body req = Json (Some c)"
  shows "(trim c = [] \<longrightarrow> fst (webhook_update cfg req d) = BadRequest MissingSentence) \<and>
         (trim c \<noteq> [] \<and> readSentence d \<noteq> [] \<and> count c \<noteq> count (readSentence d) + 1 \<longrightarrow>
            fst (webhook_update cfg req d) = BadRequest MustAppendOneWord) \<and>
         (trim c \<noteq> [] \<and> (readSentence d = [] \<or> count c = count (readSentence d) + 1) \<and>
          ends_with_punctuation (trim c) \<longrightarrow>
            fst (webhook_update cfg req d) = BadRequest EndsWithPunctuation)"
proof -
  have inc: "incoming_of (body req) = trim c"
    using cand by (auto simp: incoming_of_def)
  show ?thesis
    using auth by (auto simp: webhook_update_def inc count_trim Let_def)
qed

text \<open>
  C1. With a non-empty current sentence, the update accepts a candidate if and only if
  its trimmed form is non-empty, it has one word more than the current sentence, and
  its trimmed form does not end in \<open>.\<close>, \<open>!\<close> or \<open>?\<close>. The handler of
  \<open>src/server.js\<close> does this (\<open>update_accept_iff\<close>, \<open>update_rejection_order\<close>);
  the handler of \<open>src/unnamed/part_000\<close> checks the empty input only. With the
  current sentence \<open>the rabbit hole\<close> it accepts and stores the five-word,
  full-stop-terminated \<open>the rabbit hole goes deep.\<close>, which the handler of
  \<open>src/server.js\<close> rejects.
\<close>

theorem part_000_update_skips_validation:
  "fst (webhook_update_part_000
          \<lparr>WEBHOOK_SECRET = Some (utf16 ''s'')\<rparr>
          \<lparr>embed = (\<lambda>s. Inl EmbedderError), now = ''2026'', new_PCA = (\<lambda>m. Inl PCAError)\<rparr>
          \<lparr>X_Secret = Some (utf16 ''s''), body = Text (utf16 ''the rabbit hole goes deep.'')\<rparr>
          \<lparr>DATA_FILE = Holds (utf16 ''the rabbit hole''), VEC_FILE = Absent, PROJ_FILE = Absent,
            locked = {}\<rparr>)
     = SendText (utf16 ''the rabbit hole goes deep.'') \<and>
   DATA_FILE (snd (webhook_update_part_000
          \<lparr>WEBHOOK_SECRET = Some (utf16 ''s'')\<rparr>
          \<lparr>embed = (\<lambda>s. Inl EmbedderError), now = ''2026'', new_PCA = (\<lambda>m. Inl PCAError)\<rparr>
          \<lparr>X_Secret = Some (utf16 ''s''), body = Text (utf16 ''the rabbit hole goes deep.'')\<rparr>
          \<lparr>DATA_FILE = Holds (utf16 ''the rabbit hole''), VEC_FILE = Absent, PROJ_FILE = Absent,
            locked = {}\<rparr>))
     = Holds (utf16 ''the rabbit hole goes deep.'') \<and>
   count (utf16 ''the rabbit hole goes deep.'') \<noteq> count (utf16 ''the rabbit hole'') + 1 \<and>
   ends_with_punctuation (trim (utf16 ''the rabbit hole goes deep.'')) \<and>
   fst (webhook_update
          \<lparr>WEBHOOK_SECRET = Some (utf16 ''s'')\<rparr>
          \<lparr>X_Secret = Some (utf16 ''s''), body = Text (utf16 ''the rabbit hole goes deep.'')\<rparr>
          \<lparr>DATA_FILE = Holds (utf16 ''the rabbit hole''), VEC_FILE = Absent, PROJ_FILE = Absent,
            locked = {}\<rparr>)
     = BadRequest MustAppendOneWord"
  by (simp add: webhook_update_part_000_def webhook_update_def SECRET_def incoming_of_def
      trim_def utf16_def isWhiteSpace_def writeSentence_def count_def background_task_def
      ends_with_punctuation_def readSentence_def readFileSync_def Let_def)

subsection \<open>C2: the bootstrap case\<close>

text \<open>
  C2. When the current sentence is empty, the update accepts every candidate whose
  trimmed form is non-empty and does not end in \<open>.\<close>, \<open>!\<close> or \<open>?\<close>, whatever
  its word count: the answer is the trimmed candidate, which is also what is written to
  the sentence file. This holds for the handler of \<open>src/server.js\<close> and for the
  handler of \<open>src/unnamed/part_000\<close>.
\<close>

theorem bootstrap_accepts:
  assumes "SECRET cfg \<noteq> []" and "X_Secret req = Some (SECRET cfg)"
    and "body req = Text c \<or> body req = Json (Some c)"
    and "Sentence_txt \<notin> locked d"
    and "readSentence d = []"
    and "trim c \<noteq> []"
    and "\<not> ends_with_punctuation (trim c)"
  shows "webhook_update cfg req d = (SendText (trim c), d\<lparr>DATA_FILE := Holds (trim c)\<rparr>) \<and>
         fst (webhook_update_part_000 cfg rt req d) = SendText (trim c) \<and>
         DATA_FILE (snd (webhook_update_part_000 cfg rt req d)) = Holds (trim c)"
  using assms by (rule update_bootstrap)

theorem bootstrap_accepts_witness:
  "webhook_update \<lparr>WEBHOOK_SECRET = Some (utf16 ''s'')\<rparr>
     \<lparr>X_Secret = Some (utf16 ''s''), body = Text (utf16 '' down the rabbit hole '')\<rparr>
     \<lparr>DATA_FILE = Absent, VEC_FILE = Absent, PROJ_FILE = Absent, locked = {}\<rparr>
   = (SendText (utf16 ''down the rabbit hole''),
      \<lparr>DATA_FILE = Holds (utf16 ''down the rabbit hole''), VEC_FILE = Absent, PROJ_FILE = Absent,
        locked = {}\<rparr>) \<and>
   count (utf16 '' down the rabbit hole '') = 4"
proof -
  let ?cfg = "\<lparr>WEBHOOK_SECRET = Some (utf16 ''s'')\<rparr>"
  let ?req = "\<lparr>X_Secret = Some (utf16 ''s''), body = Text (utf16 '' down the rabbit hole '')\<rparr>"
  let ?d = "\<lparr>DATA_FILE = Absent, VEC_FILE = Absent, PROJ_FILE = Absent, locked = {}\<rparr>"
  have tr: "trim (utf16 '' down the rabbit hole '') = utf16 ''down the rabbit hole''"
    by (simp add: trim_def utf16_def isWhiteSpace_def)
  have "SECRET ?cfg \<noteq> []" "X_Secret ?req = Some (SECRET ?cfg)"
    "body ?req = Text (utf16 '' down the rabbit hole '') \<or>
     body ?req = Json (Some (utf16 '' down the rabbit hole ''))"
    "Sentence_txt \<notin> locked ?d" "readSentence ?d = []"
    "trim (utf16 '' down the rabbit hole '') \<noteq> []"
    "\<not> ends_with_punctuation (trim (utf16 '' down the rabbit hole ''))"
    by (simp_all add: SECRET_def utf16_def readSentence_def readFileSync_def trim_def
        isWhiteSpace_def ends_with_punctuation_def)
  from bootstrap_accepts [OF this] show ?thesis
    by (simp add: tr) (simp add: count_def trim_def utf16_def isWhiteSpace_def)
qed

subsection \<open>C3: a rejected proposal writes nothing\<close>

text \<open>
  C3. Whenever the update answers with one of the validation failures (missing
  sentence, word count, trailing punctuation), the disk, and with it the current
  sentence, is exactly as before. The handler of \<open>src/unnamed/part_000\<close> has the
  first of the three failures only.
\<close>

theorem rejection_leaves_disk:
  "(fst (webhook_update cfg req d) = BadRequest r \<longrightarrow> snd (webhook_update cfg req d) = d) \<and>
   (fst (webhook_update_part_000 cfg rt req d) = BadRequest r \<longrightarrow>
      snd (webhook_update_part_000 cfg rt req d) = d)"
  by (auto simp: webhook_update_def webhook_update_part_000_def Let_def split: sum.splits)

theorem rejection_leaves_disk_witness:
  "fst (webhook_update \<lparr>WEBHOOK_SECRET = Some (utf16 ''s'')\<rparr>
          \<lparr>X_Secret = Some (utf16 ''s''), body = Text (utf16 ''the rabbit hole goes deep.'')\<rparr>
          \<lparr>DATA_FILE = Holds (utf16 ''the rabbit hole goes''), VEC_FILE = Absent,
            PROJ_FILE = Absent, locked = {}\<rparr>) = BadRequest EndsWithPunctuation \<and>
   snd (webhook_update \<lparr>WEBHOOK_SECRET = Some (utf16 ''s'')\<rparr>
          \<lparr>X_Secret = Some (utf16 ''s''), body = Text (utf16 ''the rabbit hole goes deep.'')\<rparr>
          \<lparr>DATA_FILE = Holds (utf16 ''the rabbit hole goes''), VEC_FILE = Absent,
            PROJ_FILE = Absent, locked = {}\<rparr>)
     = \<lparr>DATA_FILE = Holds (utf16 ''the rabbit hole goes''), VEC_FILE = Absent,
            PROJ_FILE = Absent, locked = {}\<rparr>"
proof -
  let ?cfg = "\<lparr>WEBHOOK_SECRET = Some (utf16 ''s'')\<rparr>"
  let ?req = "\<lparr>X_Secret = Some (utf16 ''s''), body = Text (utf16 ''the rabbit hole goes deep.'')\<rparr>"
  let ?d = "\<lparr>DATA_FILE = Holds (utf16 ''the rabbit hole goes''), VEC_FILE = Absent,
            PROJ_FILE = Absent, locked = {}\<rparr>"
  have r: "fst (webhook_update ?cfg ?req ?d) = BadRequest EndsWithPunctuation"
    by (simp add: webhook_update_def SECRET_def incoming_of_def trim_def utf16_def
        isWhiteSpace_def count_def ends_with_punctuation_def readSentence_def readFileSync_def
        Let_def)
  with rejection_leaves_disk [of ?cfg ?req ?d EndsWithPunctuation]
  have "snd (webhook_update ?cfg ?req ?d) = ?d" by blast
  with r show ?thesis by blast
qed

subsection \<open>C4: the steps of the vector history\<close>

text \<open>
  C4. Starting from a vector file that loads as the empty history, after any sequence of
  updates and resets served one after the other, whatever the embedder, the PCA
  constructor and the file system do in each of them, the vector history loads as an
  array whose k-th record (counting from 1) has step k.
\<close>

theorem steps_have_no_gaps:
  assumes "loadJson (VEC_FILE d) (Array []) = Array []"
  shows "\<exists>list. loadJson (VEC_FILE (serve_all cfg evs d)) (Array []) = Array list \<and>
           (\<forall>k<length list. step (list ! k) = k + 1)"
proof -
  from assms have "history d = Array []" by (simp add: history_def)
  from serve_all_contiguous [OF this contiguous_Nil, of cfg evs]
  obtain list where "history (serve_all cfg evs d) = Array list" "contiguous list" by blast
  then show ?thesis
    by (auto simp: history_def contiguous_nth)
qed

theorem steps_have_no_gaps_witness:
  "\<exists>list. loadJson (VEC_FILE (serve_all \<lparr>WEBHOOK_SECRET = Some (utf16 ''s'')\<rparr>
       [Update \<lparr>embed = (\<lambda>s. Inr [Fin (real (length s)), Fin 1]), now = ''T1'',
                new_PCA = (\<lambda>m. Inr \<lparr>eigenvalues = [Fin 1], loadings = [[Fin 1, Fin 0]]\<rparr>)\<rparr>
          \<lparr>X_Secret = Some (utf16 ''s''), body = Text (utf16 ''down'')\<rparr>,
        Update \<lparr>embed = (\<lambda>s. Inr [Fin (real (length s)), Fin 1]), now = ''T2'',
                new_PCA = (\<lambda>m. Inr \<lparr>eigenvalues = [Fin 1], loadings = [[Fin 1, Fin 0]]\<rparr>)\<rparr>
          \<lparr>X_Secret = Some (utf16 ''s''), body = Text (utf16 ''down the'')\<rparr>]
       \<lparr>DATA_FILE = Absent, VEC_FILE = Absent, PROJ_FILE = Absent, locked = {}\<rparr>)) (Array [])
     = Array list \<and> length list = 2 \<and> step (list ! 0) = 1 \<and> step (list ! 1) = 2"
proof -
  let ?cfg = "\<lparr>WEBHOOK_SECRET = Some (utf16 ''s'')\<rparr>"
  let ?evs = "[Update \<lparr>embed = (\<lambda>s. Inr [Fin (real (length s)), Fin 1]), now = ''T1'',
                new_PCA = (\<lambda>m. Inr \<lparr>eigenvalues = [Fin 1], loadings = [[Fin 1, Fin 0]]\<rparr>)\<rparr>
          \<lparr>X_Secret = Some (utf16 ''s''), body = Text (utf16 ''down'')\<rparr>,
        Update \<lparr>embed = (\<lambda>s. Inr [Fin (real (length s)), Fin 1]), now = ''T2'',
                new_PCA = (\<lambda>m. Inr \<lparr>eigenvalues = [Fin 1], loadings = [[Fin 1, Fin 0]]\<rparr>)\<rparr>
          \<lparr>X_Secret = Some (utf16 ''s''), body = Text (utf16 ''down the'')\<rparr>]"
  let ?d = "\<lparr>DATA_FILE = Absent, VEC_FILE = Absent, PROJ_FILE = Absent, locked = {}\<rparr>"
  have start: "loadJson (VEC_FILE ?d) (Array []) = Array []"
    by (simp add: loadJson_def readFileSync_def)
  have len: "\<exists>a b. loadJson (VEC_FILE (serve_all ?cfg ?evs ?d)) (Array []) = Array [a, b]"
    by (simp add: eval_defs)
  from steps_have_no_gaps [OF start, of ?cfg ?evs]
  obtain list where l: "loadJson (VEC_FILE (serve_all ?cfg ?evs ?d)) (Array []) = Array list"
    and s: "\<forall>k<length list. step (list ! k) = k + 1" by blast
  from len l have 2: "length list = 2" by auto
  with s have "step (list ! 0) = 1" "step (list ! 1) = 2" by simp_all
  with l 2 show ?thesis by blast
qed

subsection \<open>C5: what the projection keeps\<close>

text \<open>
  C5. \<open>projectTo3D\<close> returns the empty sequence on the empty input; it returns
  whenever the PCA constructor does; what it returns has the length of the input and
  the same steps and timestamps in the same order; and on exactly one record it returns
  the single point with \<open>xyz = [0, 0, 0]\<close>.
\<close>

theorem projectTo3D_preserves_records:
  "projectTo3D rt [] = Inr [] \<and>
   (new_PCA rt (map vec vs) = Inr p \<longrightarrow> (\<exists>out. projectTo3D rt vs = Inr out)) \<and>
   (projectTo3D rt vs = Inr out \<longrightarrow>
      length out = length vs \<and> map step out = map step vs \<and> map t out = map t vs) \<and>
   (new_PCA rt [vec r] = Inr p \<longrightarrow>
      projectTo3D rt [r] = Inr [\<lparr>step = step r, t = t r, xyz = [Fin 0, Fin 0, Fin 0]\<rparr>])"
proof -
  have "projectTo3D rt [] = Inr []"
    by (simp add: projectTo3D_def)
  moreover have "\<exists>out. projectTo3D rt vs = Inr out" if "new_PCA rt (map vec vs) = Inr p"
    using projectTo3D_returns [of vs rt p] that by simp
  ultimately show ?thesis
    using projectTo3D_shape [of rt vs out] projectTo3D_single [of rt r p] by blast
qed

theorem projectTo3D_preserves_records_witness:
  "projectTo3D
     \<lparr>embed = (\<lambda>s. Inl EmbedderError), now = ''T'',
       new_PCA = (\<lambda>m. Inr \<lparr>eigenvalues = [NaN, NaN], loadings = [[Fin 1, Inf True], [NaN, Fin 2]]\<rparr>)\<rparr>
     [\<lparr>step = 7, t = ''T7'', vec = [Fin 3, Fin 4]\<rparr>]
   = Inr [\<lparr>step = 7, t = ''T7'', xyz = [Fin 0, Fin 0, Fin 0]\<rparr>]"
  using projectTo3D_preserves_records
    [of "\<lparr>embed = (\<lambda>s. Inl EmbedderError), now = ''T'',
       new_PCA = (\<lambda>m. Inr \<lparr>eigenvalues = [NaN, NaN], loadings = [[Fin 1, Inf True], [NaN, Fin 2]]\<rparr>)\<rparr>"
        "[]" "\<lparr>eigenvalues = [NaN, NaN], loadings = [[Fin 1, Inf True], [NaN, Fin 2]]\<rparr>" "[]"
        "\<lparr>step = 7, t = ''T7'', vec = [Fin 3, Fin 4]\<rparr>"]
  by simp

subsection \<open>C6: zero-filling\<close>

text \<open>
  C6. On a non-empty input for which the PCA constructor returns, with
  \<open>k = min(3, number of eigenvalues)\<close>, every point of the output has three
  coordinates, none of them NaN (nor \<open>undefined\<close>: a missing entry is read as zero),
  and the coordinates at the indices from \<open>k\<close> on are zero.
\<close>

theorem projectTo3D_zero_fills:
  assumes "vs \<noteq> []" and "new_PCA rt (map vec vs) = Inr p"
  shows "\<exists>out. projectTo3D rt vs = Inr out \<and>
           (\<forall>q\<in>set out. length (xyz q) = 3 \<and> (\<forall>j<3. xyz q ! j \<noteq> NaN) \<and>
              (\<forall>j. min 3 (length (eigenvalues p)) \<le> j \<and> j < 3 \<longrightarrow> xyz q ! j = Fin 0))"
proof -
  let ?k = "min 3 (length (eigenvalues p))"
  from projectTo3D_returns [of vs rt p] assms obtain out where out: "projectTo3D rt vs = Inr out"
    by blast
  with assms have "map_indexed (project_row (predict p (map vec vs) ?k)) 0 vs = Inr out"
    by (simp add: projectTo3D_def Let_def)
  from map_indexed_project_row_xyz [OF this predict_row_length] out show ?thesis
    by blast
qed

theorem projectTo3D_zero_fills_witness:
  "\<exists>out. projectTo3D
     \<lparr>embed = (\<lambda>s. Inl EmbedderError), now = ''T'',
       new_PCA = (\<lambda>m. Inr \<lparr>eigenvalues = [Fin 2, Fin 0], loadings = [[Fin 1, Fin 0], [NaN, Fin 1]]\<rparr>)\<rparr>
     [\<lparr>step = 1, t = ''T1'', vec = [Fin 1, Fin 5]\<rparr>, \<lparr>step = 2, t = ''T2'', vec = [Fin 3, Fin 5]\<rparr>]
   = Inr out \<and>
   out = [\<lparr>step = 1, t = ''T1'', xyz = [Fin (- 1), Fin 0, Fin 0]\<rparr>,
          \<lparr>step = 2, t = ''T2'', xyz = [Fin 1, Fin 0, Fin 0]\<rparr>] \<and>
   (\<forall>q\<in>set out. xyz q ! 1 \<noteq> NaN \<and> xyz q ! 2 = Fin 0)"
proof -
  let ?p = "\<lparr>eigenvalues = [Fin 2, Fin 0], loadings = [[Fin 1, Fin 0], [NaN, Fin 1]]\<rparr>"
  let ?rt = "\<lparr>embed = (\<lambda>s. Inl EmbedderError), now = ''T'', new_PCA = (\<lambda>m. Inr ?p)\<rparr>"
  let ?vs = "[\<lparr>step = 1, t = ''T1'', vec = [Fin 1, Fin 5]\<rparr>,
              \<lparr>step = 2, t = ''T2'', vec = [Fin 3, Fin 5]\<rparr>]"
  have ne: "?vs \<noteq> []" and fit: "new_PCA ?rt (map vec ?vs) = Inr ?p" by simp_all
  from projectTo3D_zero_fills [OF ne fit] obtain out where out: "projectTo3D ?rt ?vs = Inr out"
    and z: "\<forall>q\<in>set out. length (xyz q) = 3 \<and> (\<forall>j<3. xyz q ! j \<noteq> NaN) \<and>
              (\<forall>j. min 3 (length (eigenvalues ?p)) \<le> j \<and> j < 3 \<longrightarrow> xyz q ! j = Fin 0)"
    by blast
  have ev: "projectTo3D ?rt ?vs = Inr [\<lparr>step = 1, t = ''T1'', xyz = [Fin (- 1), Fin 0, Fin 0]\<rparr>,
          \<lparr>step = 2, t = ''T2'', xyz = [Fin 1, Fin 0, Fin 0]\<rparr>]"
    by (simp add: projectTo3D_def predict_def column_means_def centre_def dot_def
        js_sum_def js_sub_def project_row_def lookup_def Let_def)
  from z have "\<forall>q\<in>set out. xyz q ! 1 \<noteq> NaN \<and> xyz q ! 2 = Fin 0" by simp
  with out ev show ?thesis by simp
qed

subsection \<open>C7: reads that fail\<close>

text \<open>
  C7. A read of the sentence file that throws makes \<open>readSentence\<close>, and
  \<open>GET /sentence\<close>, return the empty string; a read of a JSON file that throws, or a
  text on which \<open>JSON.parse\<close> throws, makes \<open>loadJson\<close> return its fallback, which
  is the empty array for the vector history and for \<open>GET /vectors3d\<close>. None of these
  functions can raise.
\<close>

theorem reads_fall_back_to_empty:
  "(readFileSync (DATA_FILE d) = Inl e \<longrightarrow> readSentence d = [] \<and> get_sentence d = SendText []) \<and>
   (readFileSync f = Inl e \<or> (\<exists>txt. readFileSync f = Inr txt \<and> JSON_parse txt = Inl e) \<longrightarrow>
      loadJson f fallback = fallback) \<and>
   (readFileSync (VEC_FILE d) = Inl e \<or>
    (\<exists>txt. readFileSync (VEC_FILE d) = Inr txt \<and> JSON_parse txt = Inl e) \<longrightarrow>
      loadJson (VEC_FILE d) (Array []) = Array []) \<and>
   (readFileSync (PROJ_FILE d) = Inl e \<or>
    (\<exists>txt. readFileSync (PROJ_FILE d) = Inr txt \<and> JSON_parse txt = Inl e) \<longrightarrow>
      get_vectors3d d = SendJson (Array []))"
  by (auto simp: readSentence_def get_sentence_def loadJson_def get_vectors3d_def)

theorem reads_fall_back_to_empty_witness:
  "readSentence \<lparr>DATA_FILE = Unreadable, VEC_FILE = Holds Malformed, PROJ_FILE = Absent, locked = {}\<rparr> = [] \<and>
   loadJson (VEC_FILE \<lparr>DATA_FILE = Unreadable, VEC_FILE = Holds Malformed, PROJ_FILE = Absent, locked = {}\<rparr>)
      (Array []) = Array [] \<and>
   get_vectors3d \<lparr>DATA_FILE = Unreadable, VEC_FILE = Holds Malformed, PROJ_FILE = Absent, locked = {}\<rparr>
     = SendJson (Array [])"
proof -
  let ?d = "\<lparr>DATA_FILE = Unreadable, VEC_FILE = Holds Malformed, PROJ_FILE = Absent, locked = {}\<rparr>"
  have 1: "readFileSync (DATA_FILE ?d) = Inl IOError"
    by (simp add: readFileSync_def)
  have 2: "readFileSync (VEC_FILE ?d) = Inl SyntaxError \<or>
      (\<exists>txt. readFileSync (VEC_FILE ?d) = Inr txt \<and> JSON_parse txt = Inl SyntaxError)"
    by (simp add: readFileSync_def JSON_parse_def)
  have 3: "readFileSync (PROJ_FILE ?d) = Inl IOError \<or>
      (\<exists>txt. readFileSync (PROJ_FILE ?d) = Inr txt \<and> JSON_parse txt = Inl IOError)"
    by (simp add: readFileSync_def)
  from reads_fall_back_to_empty [of ?d IOError "VEC_FILE ?d" "Array []"] 1
  have a: "readSentence ?d = []" by blast
  from reads_fall_back_to_empty [of ?d SyntaxError "VEC_FILE ?d" "Array []"] 2
  have b: "loadJson (VEC_FILE ?d) (Array []) = Array []" by blast
  from reads_fall_back_to_empty [of ?d IOError "VEC_FILE ?d" "Array []"] 3
  have c: "get_vectors3d ?d = SendJson (Array [])" by blast
  from a b c show ?thesis by blast
qed

subsection \<open>C8: reset\<close>

text \<open>
  C8. After a reset that answers \<open>All data cleared\<close>, the sentence reads as the
  empty string, the vector history and the projection read as the empty array, and a
  following update is in the bootstrap case: a candidate with a non-empty trimmed form
  that does not end in punctuation is accepted whatever its word count.
\<close>

theorem reset_clears_everything:
  assumes "fst (reset cfg req d) = Cleared"
  shows "readSentence (snd (reset cfg req d)) = [] \<and>
         get_sentence (snd (reset cfg req d)) = SendText [] \<and>
         loadJson (VEC_FILE (snd (reset cfg req d))) (Array []) = Array [] \<and>
         loadJson (PROJ_FILE (snd (reset cfg req d))) (Array []) = Array [] \<and>
         get_vectors3d (snd (reset cfg req d)) = SendJson (Array []) \<and>
         ((body req' = Text c \<or> body req' = Json (Some c)) \<and> X_Secret req' = Some (SECRET cfg) \<and>
          Sentence_txt \<notin> locked d \<and> trim c \<noteq> [] \<and> \<not> ends_with_punctuation (trim c) \<longrightarrow>
            fst (webhook_update_part_000 cfg rt req' (snd (reset cfg req d))) = SendText (trim c) \<and>
            fst (webhook_update cfg req' (snd (reset cfg req d))) = SendText (trim c))"
proof -
  let ?d = "snd (reset cfg req d)"
  note c = reset_Cleared [OF assms]
  have s: "readSentence ?d = []"
    using c by (simp add: readSentence_def readFileSync_def)
  have v: "loadJson (VEC_FILE ?d) (Array []) = Array []"
    using c by (simp add: loadJson_def readFileSync_def)
  have p: "loadJson (PROJ_FILE ?d) (Array []) = Array []"
    using c by (simp add: loadJson_def readFileSync_def)
  have u: "fst (webhook_update_part_000 cfg rt req' ?d) = SendText (trim c) \<and>
      fst (webhook_update cfg req' ?d) = SendText (trim c)"
    if "body req' = Text c \<or> body req' = Json (Some c)" "X_Secret req' = Some (SECRET cfg)"
      "Sentence_txt \<notin> locked d" "trim c \<noteq> []" "\<not> ends_with_punctuation (trim c)"
    using update_bootstrap [of cfg req' c ?d rt] that c s by simp
  show ?thesis
    using s v p u by (simp add: get_sentence_def get_vectors3d_def)
qed

theorem reset_clears_everything_witness:
  "fst (reset \<lparr>WEBHOOK_SECRET = Some (utf16 ''s'')\<rparr> \<lparr>X_Secret = Some (utf16 ''s''), body = Json None\<rparr>
     \<lparr>DATA_FILE = Holds (utf16 ''down the''),
       VEC_FILE = Holds (Encoding (Array [\<lparr>step = 1, t = ''T0'', vec = [Fin 1]\<rparr>])),
       PROJ_FILE = Holds Malformed, locked = {}\<rparr>) = Cleared \<and>
   get_sentence (snd (reset \<lparr>WEBHOOK_SECRET = Some (utf16 ''s'')\<rparr> \<lparr>X_Secret = Some (utf16 ''s''), body = Json None\<rparr>
     \<lparr>DATA_FILE = Holds (utf16 ''down the''),
       VEC_FILE = Holds (Encoding (Array [\<lparr>step = 1, t = ''T0'', vec = [Fin 1]\<rparr>])),
       PROJ_FILE = Holds Malformed, locked = {}\<rparr>)) = SendText [] \<and>
   get_vectors3d (snd (reset \<lparr>WEBHOOK_SECRET = Some (utf16 ''s'')\<rparr> \<lparr>X_Secret = Some (utf16 ''s''), body = Json None\<rparr>
     \<lparr>DATA_FILE = Holds (utf16 ''down the''),
       VEC_FILE = Holds (Encoding (Array [\<lparr>step = 1, t = ''T0'', vec = [Fin 1]\<rparr>])),
       PROJ_FILE = Holds Malformed, locked = {}\<rparr>)) = SendJson (Array []) \<and>
   fst (webhook_update_part_000 \<lparr>WEBHOOK_SECRET = Some (utf16 ''s'')\<rparr>
     \<lparr>embed = (\<lambda>s. Inl EmbedderError), now = ''T'', new_PCA = (\<lambda>m. Inl PCAError)\<rparr>
     \<lparr>X_Secret = Some (utf16 ''s''), body = Json (Some (utf16 ''a whole new sentence''))\<rparr>
     (snd (reset \<lparr>WEBHOOK_SECRET = Some (utf16 ''s'')\<rparr> \<lparr>X_Secret = Some (utf16 ''s''), body = Json None\<rparr>
     \<lparr>DATA_FILE = Holds (utf16 ''down the''),
       VEC_FILE = Holds (Encoding (Array [\<lparr>step = 1, t = ''T0'', vec = [Fin 1]\<rparr>])),
       PROJ_FILE = Holds Malformed, locked = {}\<rparr>))) = SendText (utf16 ''a whole new sentence'')"
proof -
  let ?cfg = "\<lparr>WEBHOOK_SECRET = Some (utf16 ''s'')\<rparr>"
  let ?req = "\<lparr>X_Secret = Some (utf16 ''s''), body = Json None\<rparr>"
  let ?d = "\<lparr>DATA_FILE = Holds (utf16 ''down the''),
       VEC_FILE = Holds (Encoding (Array [\<lparr>step = 1, t = ''T0'', vec = [Fin 1]\<rparr>])),
       PROJ_FILE = Holds Malformed, locked = {}\<rparr>"
  let ?rt = "\<lparr>embed = (\<lambda>s. Inl EmbedderError), now = ''T'', new_PCA = (\<lambda>m. Inl PCAError)\<rparr>"
  let ?req' = "\<lparr>X_Secret = Some (utf16 ''s''), body = Json (Some (utf16 ''a whole new sentence''))\<rparr>"
  have ok: "fst (reset ?cfg ?req ?d) = Cleared"
    by (simp add: reset_def SECRET_def utf16_def unlink_if_exists_def unlinkSync_def Let_def)
  have tr: "trim (utf16 ''a whole new sentence'') = utf16 ''a whole new sentence''"
    by (simp add: trim_def utf16_def isWhiteSpace_def)
  have hyp: "(body ?req' = Text (utf16 ''a whole new sentence'') \<or>
      body ?req' = Json (Some (utf16 ''a whole new sentence''))) \<and>
      X_Secret ?req' = Some (SECRET ?cfg) \<and> Sentence_txt \<notin> locked ?d \<and>
      trim (utf16 ''a whole new sentence'') \<noteq> [] \<and>
      \<not> ends_with_punctuation (trim (utf16 ''a whole new sentence''))"
    unfolding tr by (simp add: SECRET_def utf16_def ends_with_punctuation_def)
  from reset_clears_everything [OF ok, of ?req' "utf16 ''a whole new sentence''" ?rt] hyp
  have "get_sentence (snd (reset ?cfg ?req ?d)) = SendText []"
    "get_vectors3d (snd (reset ?cfg ?req ?d)) = SendJson (Array [])"
    "fst (webhook_update_part_000 ?cfg ?rt ?req' (snd (reset ?cfg ?req ?d))) =
       SendText (trim (utf16 ''a whole new sentence''))"
    by blast+
  with ok show ?thesis unfolding tr by blast
qed

subsection \<open>C9: failures of the background task\<close>

text \<open>
  C9. The response of the update does not depend on what the embedder and the PCA
  constructor do, and the only 500 it can send comes from the synchronous write of the
  sentence. A failure of the embedder, a vector file that is not an array, or a failing
  save of the vector file leaves the whole disk as it was; and every failure of the
  background task, at whatever point, leaves the projection file and the sentence file
  as they were.
\<close>

theorem background_failures_are_contained:
  "fst (webhook_update_part_000 cfg rt req d) = fst (webhook_update_part_000 cfg rt' req d) \<and>
   (fst (webhook_update_part_000 cfg rt req d) = ServerError \<longrightarrow> Sentence_txt \<in> locked d) \<and>
   (embed rt (readSentence d) = Inl e \<or> loadJson (VEC_FILE d) (Array []) = NonArray \<or>
    Vectors_json \<in> locked d \<longrightarrow>
      fst (background_task rt d) \<noteq> None \<and> snd (background_task rt d) = d) \<and>
   (fst (background_task rt d) = Some e \<longrightarrow>
      PROJ_FILE (snd (background_task rt d)) = PROJ_FILE d \<and>
      DATA_FILE (snd (background_task rt d)) = DATA_FILE d)"
proof -
  have "fst (webhook_update_part_000 cfg rt req d) = fst (webhook_update_part_000 cfg rt' req d)"
    by (simp add: webhook_update_part_000_def Let_def split: sum.splits)
  moreover have "Sentence_txt \<in> locked d" if "fst (webhook_update_part_000 cfg rt req d) = ServerError"
    using that
    by (auto simp: webhook_update_part_000_def writeSentence_def Let_def split: if_splits)
  ultimately show ?thesis
    using background_task_early_failure [of rt d e] background_task_failure [of rt d e]
      background_task_DATA_FILE [of rt d]
    by blast
qed

theorem background_failures_are_contained_witness:
  "webhook_update_part_000 \<lparr>WEBHOOK_SECRET = Some (utf16 ''s'')\<rparr>
     \<lparr>embed = (\<lambda>s. Inl EmbedderError), now = ''T'', new_PCA = (\<lambda>m. Inl PCAError)\<rparr>
     \<lparr>X_Secret = Some (utf16 ''s''), body = Text (utf16 ''down the'')\<rparr>
     \<lparr>DATA_FILE = Holds (utf16 ''down''),
       VEC_FILE = Holds (Encoding (Array [\<lparr>step = 1, t = ''T0'', vec = [Fin 1]\<rparr>])),
       PROJ_FILE = Holds (Encoding (Array [\<lparr>step = 1, t = ''T0'', xyz = [Fin 0, Fin 0, Fin 0]\<rparr>])),
       locked = {}\<rparr>
   = (SendText (utf16 ''down the''),
      \<lparr>DATA_FILE = Holds (utf16 ''down the''),
       VEC_FILE = Holds (Encoding (Array [\<lparr>step = 1, t = ''T0'', vec = [Fin 1]\<rparr>])),
       PROJ_FILE = Holds (Encoding (Array [\<lparr>step = 1, t = ''T0'', xyz = [Fin 0, Fin 0, Fin 0]\<rparr>])),
       locked = {}\<rparr>)"
proof -
  let ?cfg = "\<lparr>WEBHOOK_SECRET = Some (utf16 ''s'')\<rparr>"
  let ?rt = "\<lparr>embed = (\<lambda>s. Inl EmbedderError), now = ''T'', new_PCA = (\<lambda>m. Inl PCAError)\<rparr>"
  let ?req = "\<lparr>X_Secret = Some (utf16 ''s''), body = Text (utf16 ''down the'')\<rparr>"
  let ?d' = "\<lparr>DATA_FILE = Holds (utf16 ''down the''),
       VEC_FILE = Holds (Encoding (Array [\<lparr>step = 1, t = ''T0'', vec = [Fin 1]\<rparr>])),
       PROJ_FILE = Holds (Encoding (Array [\<lparr>step = 1, t = ''T0'', xyz = [Fin 0, Fin 0, Fin 0]\<rparr>])),
       locked = {}\<rparr>"
  have "embed ?rt (readSentence ?d') = Inl EmbedderError" by simp
  with background_failures_are_contained [of ?cfg ?rt ?req ?d' ?rt EmbedderError]
  have "snd (background_task ?rt ?d') = ?d'" by blast
  then show ?thesis
    by (simp add: webhook_update_part_000_def SECRET_def incoming_of_def trim_def utf16_def
        isWhiteSpace_def writeSentence_def Let_def)
qed

subsection \<open>C10: the shared secret\<close>

text \<open>
  C10. The update of either server and the reset answer something other than 401
  exactly when the configured secret is set and non-empty and the \<open>X-Secret\<close> header
  carries that very string. With the secret unset or empty every request is
  unauthorized, an empty or absent header included.
\<close>

theorem access_granted_iff_secret_matches:
  "(fst (webhook_update cfg req d) \<noteq> Unauthorized \<longleftrightarrow>
      (\<exists>s. s \<noteq> [] \<and> WEBHOOK_SECRET cfg = Some s \<and> X_Secret req = Some s)) \<and>
   (fst (webhook_update_part_000 cfg rt req d) \<noteq> Unauthorized \<longleftrightarrow>
      (\<exists>s. s \<noteq> [] \<and> WEBHOOK_SECRET cfg = Some s \<and> X_Secret req = Some s)) \<and>
   (fst (reset cfg req d) \<noteq> Unauthorized \<longleftrightarrow>
      (\<exists>s. s \<noteq> [] \<and> WEBHOOK_SECRET cfg = Some s \<and> X_Secret req = Some s))"
proof -
  have key: "\<not> (SECRET cfg = [] \<or> or_empty (X_Secret req) \<noteq> SECRET cfg) \<longleftrightarrow>
      (\<exists>s. s \<noteq> [] \<and> WEBHOOK_SECRET cfg = Some s \<and> X_Secret req = Some s)"
    by (cases "WEBHOOK_SECRET cfg"; cases "X_Secret req") (auto simp: SECRET_def)
  have a: "fst (webhook_update cfg req d) \<noteq> Unauthorized \<longleftrightarrow>
      \<not> (SECRET cfg = [] \<or> or_empty (X_Secret req) \<noteq> SECRET cfg)"
    by (auto simp: webhook_update_def Let_def split: sum.splits)
  have b: "fst (webhook_update_part_000 cfg rt req d) \<noteq> Unauthorized \<longleftrightarrow>
      \<not> (SECRET cfg = [] \<or> or_empty (X_Secret req) \<noteq> SECRET cfg)"
    by (auto simp: webhook_update_part_000_def Let_def split: sum.splits)
  have c: "fst (reset cfg req d) \<noteq> Unauthorized \<longleftrightarrow>
      \<not> (SECRET cfg = [] \<or> or_empty (X_Secret req) \<noteq> SECRET cfg)"
    by (auto simp: reset_def Let_def split: sum.splits)
  show ?thesis
    unfolding a b c key by simp
qed

theorem access_granted_iff_secret_matches_witness:
  "fst (webhook_update \<lparr>WEBHOOK_SECRET = None\<rparr> \<lparr>X_Secret = Some [], body = Text (utf16 ''a'')\<rparr>
         \<lparr>DATA_FILE = Absent, VEC_FILE = Absent, PROJ_FILE = Absent, locked = {}\<rparr>) = Unauthorized \<and>
   fst (reset \<lparr>WEBHOOK_SECRET = None\<rparr> \<lparr>X_Secret = Some [], body = Text (utf16 ''a'')\<rparr>
         \<lparr>DATA_FILE = Absent, VEC_FILE = Absent, PROJ_FILE = Absent, locked = {}\<rparr>) = Unauthorized \<and>
   fst (reset \<lparr>WEBHOOK_SECRET = Some (utf16 ''s'')\<rparr> \<lparr>X_Secret = Some (utf16 ''s''), body = Json None\<rparr>
         \<lparr>DATA_FILE = Absent, VEC_FILE = Absent, PROJ_FILE = Absent, locked = {}\<rparr>) \<noteq> Unauthorized"
  using access_granted_iff_secret_matches
      [of "\<lparr>WEBHOOK_SECRET = None\<rparr>" "\<lparr>X_Secret = Some [], body = Text (utf16 ''a'')\<rparr>"
          "\<lparr>DATA_FILE = Absent, VEC_FILE = Absent, PROJ_FILE = Absent, locked = {}\<rparr>"]
    access_granted_iff_secret_matches
      [of "\<lparr>WEBHOOK_SECRET = Some (utf16 ''s'')\<rparr>" "\<lparr>X_Secret = Some (utf16 ''s''), body = Json None\<rparr>"
          "\<lparr>DATA_FILE = Absent, VEC_FILE = Absent, PROJ_FILE = Absent, locked = {}\<rparr>"]
  by (simp add: utf16_def)

end
